theory Spec2Isabelle
  imports Main "HOL-Library.Word"
begin

unbundle bit_operations_syntax

section \<open>Strings, numbers and bytes of the JavaScript runtime\<close>

text \<open>
  A JavaScript string is modelled as a \<^typ>\<open>string\<close>: a list of code units in the range
  U+0000 .. U+00FF.  Bytes are 8-bit words.
\<close>

type_synonym byte = "8 word"

text \<open>\<^verbatim>\<open>String.prototype.startsWith\<close>.\<close>

fun startsWith :: "string \<Rightarrow> string \<Rightarrow> bool" where
  "startsWith s [] = True"
| "startsWith [] (p # ps) = False"
| "startsWith (c # cs) (p # ps) = (c = p \<and> startsWith cs ps)"

text \<open>
  \<^verbatim>\<open>String.prototype.split\<close> with a one-character separator: the pieces between the
  separators, in order.  The empty string splits into one empty piece.
\<close>

fun split :: "string \<Rightarrow> char \<Rightarrow> string list" where
  "split [] sep = [[]]"
| "split (c # cs) sep =
     (let r = split cs sep in if c = sep then [] # r else (c # hd r) # tl r)"

text \<open>\<^verbatim>\<open>Array.prototype.pop\<close>, for its value: the last element, \<^verbatim>\<open>undefined\<close> on an empty array.\<close>

definition pop :: "'a list \<Rightarrow> 'a option" where
  "pop xs = (if xs = [] then None else Some (last xs))"

text \<open>
  \<^verbatim>\<open>x || d\<close> on a string or \<^verbatim>\<open>undefined\<close>: the falsy values are \<^verbatim>\<open>undefined\<close> and the
  empty string.
\<close>

definition or_else :: "string option \<Rightarrow> string \<Rightarrow> string" where
  "or_else x d = (case x of None \<Rightarrow> d | Some s \<Rightarrow> if s = [] then d else s)"

text \<open>\<^verbatim>\<open>String.prototype.substring(from, to)\<close> for \<open>from \<le> to\<close>.\<close>

definition substring :: "string \<Rightarrow> nat \<Rightarrow> nat \<Rightarrow> string" where
  "substring s from to = take (to - from) (drop from s)"

definition hex_digit :: "nat \<Rightarrow> char" where
  "hex_digit n = ''0123456789abcdef'' ! (n mod 16)"

text \<open>
  Number-to-string conversion of a non-negative integer below \<open>10^21\<close>: its decimal
  numeral.  Time values are at most \<open>8.64 * 10^15\<close>.
\<close>

function numberToString :: "nat \<Rightarrow> string" where
  "numberToString n =
     (if n < 10 then [hex_digit n] else numberToString (n div 10) @ [hex_digit (n mod 10)])"
  by pat_completeness auto
termination
  by (relation "measure id") auto

declare numberToString.simps [simp del]

text \<open>\<^verbatim>\<open>Buffer.prototype.toString('hex')\<close>: two lowercase hexadecimal digits per byte.\<close>

definition hex_of_byte :: "byte \<Rightarrow> string" where
  "hex_of_byte b = [hex_digit (unat b div 16), hex_digit (unat b mod 16)]"

definition toString_hex :: "byte list \<Rightarrow> string" where
  "toString_hex bs = concat (map hex_of_byte bs)"

text \<open>
  The UTF-8 encoding that \<^verbatim>\<open>hash.update(string)\<close> applies: one byte for a code unit
  below U+0080, two bytes for U+0080 .. U+00FF.
\<close>

definition utf8_char :: "char \<Rightarrow> byte list" where
  "utf8_char c =
     (let k = (of_char c :: nat)
      in if k < 128 then [of_nat k] else [of_nat (192 + k div 64), of_nat (128 + k mod 64)])"

definition utf8 :: "string \<Rightarrow> byte list" where
  "utf8 s = concat (map utf8_char s)"

section \<open>MD5 (RFC 1321), as \<^verbatim>\<open>crypto.createHash('md5')\<close> computes it\<close>

type_synonym md5_state = "32 word \<times> 32 word \<times> 32 word \<times> 32 word"

definition md5_K :: "32 word list" where
  "md5_K =
    [0xd76aa478, 0xe8c7b756, 0x242070db, 0xc1bdceee, 0xf57c0faf, 0x4787c62a, 0xa8304613, 0xfd469501,
     0x698098d8, 0x8b44f7af, 0xffff5bb1, 0x895cd7be, 0x6b901122, 0xfd987193, 0xa679438e, 0x49b40821,
     0xf61e2562, 0xc040b340, 0x265e5a51, 0xe9b6c7aa, 0xd62f105d, 0x02441453, 0xd8a1e681, 0xe7d3fbc8,
     0x21e1cde6, 0xc33707d6, 0xf4d50d87, 0x455a14ed, 0xa9e3e905, 0xfcefa3f8, 0x676f02d9, 0x8d2a4c8a,
     0xfffa3942, 0x8771f681, 0x6d9d6122, 0xfde5380c, 0xa4beea44, 0x4bdecfa9, 0xf6bb4b60, 0xbebfbc70,
     0x289b7ec6, 0xeaa127fa, 0xd4ef3085, 0x04881d05, 0xd9d4d039, 0xe6db99e5, 0x1fa27cf8, 0xc4ac5665,
     0xf4292244, 0x432aff97, 0xab9423a7, 0xfc93a039, 0x655b59c3, 0x8f0ccc92, 0xffeff47d, 0x85845dd1,
     0x6fa87e4f, 0xfe2ce6e0, 0xa3014314, 0x4e0811a1, 0xf7537e82, 0xbd3af235, 0x2ad7d2bb, 0xeb86d391]"

definition md5_shift :: "nat list" where
  "md5_shift =
    [7, 12, 17, 22, 7, 12, 17, 22, 7, 12, 17, 22, 7, 12, 17, 22,
     5, 9, 14, 20, 5, 9, 14, 20, 5, 9, 14, 20, 5, 9, 14, 20,
     4, 11, 16, 23, 4, 11, 16, 23, 4, 11, 16, 23, 4, 11, 16, 23,
     6, 10, 15, 21, 6, 10, 15, 21, 6, 10, 15, 21, 6, 10, 15, 21]"

text \<open>Padding: a 1 bit, zeros up to 56 modulo 64 bytes, the bit length in 64 bits, little-endian.\<close>

definition le_bytes :: "nat \<Rightarrow> nat \<Rightarrow> byte list" where
  "le_bytes k n = map (\<lambda>i. of_nat (n div 256 ^ i)) [0..<k]"

definition md5_pad :: "byte list \<Rightarrow> byte list" where
  "md5_pad m =
     m @ [0x80] @ replicate ((119 - length m mod 64) mod 64) 0
       @ le_bytes 8 ((8 * length m) mod 2 ^ 64)"

definition le_word :: "byte list \<Rightarrow> 32 word" where
  "le_word bs = foldr (\<lambda>b w. ucast b + push_bit 8 w) bs 0"

fun md5_words :: "nat \<Rightarrow> byte list \<Rightarrow> 32 word list" where
  "md5_words 0 bs = []"
| "md5_words (Suc n) bs = le_word (take 4 bs) # md5_words n (drop 4 bs)"

definition md5_step :: "32 word list \<Rightarrow> md5_state \<Rightarrow> nat \<Rightarrow> md5_state" where
  "md5_step M st i =
     (case st of (a, b, c, d) \<Rightarrow>
        let (f, g) =
              (if i < 16 then ((b AND c) OR (NOT b AND d), i)
               else if i < 32 then ((d AND b) OR (NOT d AND c), (5 * i + 1) mod 16)
               else if i < 48 then (b XOR c XOR d, (3 * i + 5) mod 16)
               else (c XOR (b OR NOT d), (7 * i) mod 16));
            f' = f + a + md5_K ! i + M ! g
        in (d, b + word_rotl (md5_shift ! i) f', b, c))"

definition md5_block :: "md5_state \<Rightarrow> byte list \<Rightarrow> md5_state" where
  "md5_block st blk =
     (case st of (a0, b0, c0, d0) \<Rightarrow>
        case foldl (md5_step (md5_words 16 blk)) st [0..<64] of (a, b, c, d) \<Rightarrow>
          (a0 + a, b0 + b, c0 + c, d0 + d))"

fun md5_blocks :: "nat \<Rightarrow> md5_state \<Rightarrow> byte list \<Rightarrow> md5_state" where
  "md5_blocks 0 st bs = st"
| "md5_blocks (Suc n) st bs = md5_blocks n (md5_block st (take 64 bs)) (drop 64 bs)"

definition md5_init :: md5_state where
  "md5_init = (0x67452301, 0xefcdab89, 0x98badcfe, 0x10325476)"

definition md5 :: "byte list \<Rightarrow> byte list" where
  "md5 m =
     (let p = md5_pad m
      in case md5_blocks (length p div 64) md5_init p of (a, b, c, d) \<Rightarrow>
           concat (map (\<lambda>w. le_bytes 4 (unat w)) [a, b, c, d]))"

text \<open>\<^verbatim>\<open>crypto.createHash('md5').update(s).digest('hex')\<close>.\<close>

definition md5_hex :: "string \<Rightarrow> string" where
  "md5_hex s = toString_hex (md5 (utf8 s))"

section \<open>The process environment: clock, randomness, object storage\<close>

text \<open>
  What the server reads from and writes to outside itself.  The clock and the random
  source are sequences indexed by the number of reads so far, so two reads may differ.
  \<open>upstream\<close> tells how the storage service answers the \<open>k\<close>-th call made to it.
  \<open>syntax_message\<close> is the message the JavaScript engine gives to the syntax error of a
  malformed JSON text.
\<close>

datatype upstream = Proceeds | Fails string | Throws

datatype gateway_call =
    Upload string string "byte list" string
  | Remove string "string list"

record world =
  clock :: "nat \<Rightarrow> nat"
  clock_reads :: nat
  entropy :: "nat \<Rightarrow> byte"
  entropy_taken :: nat
  SUPABASE_URL :: string
  BUCKET_NAME :: string
  objects :: "string \<rightharpoonup> byte list \<times> string"
  gateway_calls :: "gateway_call list"
  upstream :: "nat \<Rightarrow> upstream"
  syntax_message :: "string \<Rightarrow> string"

text \<open>\<^verbatim>\<open>Date.now()\<close>: milliseconds elapsed since the epoch.\<close>

definition Date_now :: "world \<Rightarrow> nat \<times> world" where
  "Date_now w = (clock w (clock_reads w), w\<lparr>clock_reads := Suc (clock_reads w)\<rparr>)"

text \<open>\<^verbatim>\<open>crypto.randomBytes(n)\<close>.\<close>

definition crypto_randomBytes :: "nat \<Rightarrow> world \<Rightarrow> byte list \<times> world" where
  "crypto_randomBytes n w =
     (map (entropy w) [entropy_taken w ..< entropy_taken w + n],
      w\<lparr>entropy_taken := entropy_taken w + n\<rparr>)"

section \<open>Filename generator (server.js, lines 36-43)\<close>

definition generateUniqueFilename :: "string \<Rightarrow> world \<Rightarrow> string \<times> world" where
  "generateUniqueFilename originalName w =
     (let (timestamp, w1) = Date_now w;
          (bytes, w2) = crypto_randomBytes 8 w1;
          randomBytes = toString_hex bytes;
          hash = substring (md5_hex (originalName @ numberToString timestamp)) 0 8;
          ext = or_else (pop (split originalName CHR ''.'')) ''jpg''
      in (hash @ ''_'' @ randomBytes @ ''_'' @ numberToString timestamp @ ''.'' @ ext, w2))"

text \<open>The extension the generator appends (line 40).\<close>

definition ext_of :: "string \<Rightarrow> string" where
  "ext_of originalName = or_else (pop (split originalName CHR ''.'')) ''jpg''"

text \<open>The parts of a generated filename, read back from the string.\<close>

definition extension :: "string \<Rightarrow> string" where
  "extension f = rev (takeWhile (\<lambda>c. c \<noteq> CHR ''.'') (rev f))"

definition hash_part :: "string \<Rightarrow> string" where
  "hash_part f = take 8 f"

definition timestamp_part :: "string \<Rightarrow> string" where
  "timestamp_part f = takeWhile (\<lambda>c. c \<noteq> CHR ''.'') (drop 26 f)"

definition is_hex :: "char \<Rightarrow> bool" where
  "is_hex c = (c \<in> set ''0123456789abcdef'')"

definition is_digit :: "char \<Rightarrow> bool" where
  "is_digit c = (c \<in> set ''0123456789'')"

text \<open>
  The regular expression \<^verbatim>\<open>^[0-9a-f]{8}_[0-9a-f]{16}_[0-9]+\.[^.]+$\<close>, read from left to
  right: the run of digits after the second underscore is the longest one, since a dot
  has to follow it.
\<close>

definition matches_filename_pattern :: "string \<Rightarrow> bool" where
  "matches_filename_pattern s =
     (let t = takeWhile is_digit (drop 26 s)
      in 26 < length s
         \<and> list_all is_hex (take 8 s) \<and> s ! 8 = CHR ''_''
         \<and> list_all is_hex (take 16 (drop 9 s)) \<and> s ! 25 = CHR ''_''
         \<and> t \<noteq> []
         \<and> (case drop (26 + length t) s of
               [] \<Rightarrow> False
             | c # e \<Rightarrow> c = CHR ''.'' \<and> e \<noteq> [] \<and> CHR ''.'' \<notin> set e))"

section \<open>Errors\<close>

text \<open>
  The errors that are thrown or handed to \<^verbatim>\<open>next\<close>: those of the upload middleware with
  their code, plain errors with their message, the range error of an invalid date, and the
  syntax error of a malformed JSON body.
\<close>

datatype multer_code = LIMIT_FILE_SIZE | LIMIT_UNEXPECTED_FILE

datatype js_error =
  MulterError multer_code | Error string | RangeError string | SyntaxError string

section \<open>Dates: \<^verbatim>\<open>Date.prototype.toISOString\<close>\<close>

definition maxTimeValue :: nat where
  "maxTimeValue = 8640000000000000"

definition pad :: "nat \<Rightarrow> nat \<Rightarrow> string" where
  "pad k n = replicate (k - length (numberToString n)) CHR ''0'' @ numberToString n"

text \<open>
  Lengths of the months of a year that starts on 1 March, so that the leap day is the
  last day of the year.
\<close>

definition month_lengths :: "nat list" where
  "month_lengths = [31, 30, 31, 30, 31, 31, 30, 31, 30, 31, 31, 29]"

fun month_walk :: "nat list \<Rightarrow> nat \<Rightarrow> nat \<Rightarrow> nat \<times> nat" where
  "month_walk [] m d = (m, d)"
| "month_walk (l # ls) m d = (if d < l then (m, d) else month_walk ls (Suc m) (d - l))"

text \<open>
  Year, month (1..12) and day of the month (1..31) of a day number counted from
  1 January 1970, through the 400-, 100-, 4- and 1-year cycles of the Gregorian
  calendar counted from 1 March of year 0.
\<close>

definition civil_from_days :: "nat \<Rightarrow> nat \<times> nat \<times> nat" where
  "civil_from_days days =
     (let z = days + 719468;
          n400 = z div 146097; r400 = z mod 146097;
          n100 = min 3 (r400 div 36524); r100 = r400 - n100 * 36524;
          n4 = r100 div 1461; r4 = r100 mod 1461;
          n1 = min 3 (r4 div 365); doy = r4 - n1 * 365;
          y = 400 * n400 + 100 * n100 + 4 * n4 + n1;
          (mp, d) = month_walk month_lengths 0 doy
      in (if mp < 10 then y else Suc y, if mp < 10 then mp + 3 else mp - 9, Suc d))"

definition toISOString :: "nat \<Rightarrow> js_error + string" where
  "toISOString t =
     (if maxTimeValue < t then Inl (RangeError ''Invalid time value'')
      else
        let (y, m, d) = civil_from_days (t div 86400000);
            ms = t mod 86400000;
            year = (if y \<le> 9999 then pad 4 y else ''+'' @ pad 6 y)
        in Inr (year @ ''-'' @ pad 2 m @ ''-'' @ pad 2 d @ ''T''
                  @ pad 2 (ms div 3600000) @ '':'' @ pad 2 (ms div 60000 mod 60) @ '':''
                  @ pad 2 (ms div 1000 mod 60) @ ''.'' @ pad 3 (ms mod 1000) @ ''Z''))"

text \<open>
  Well-formed ISO-8601 date-time in UTC, extended format: \<^verbatim>\<open>YYYY-MM-DDTHH:mm:ss.sssZ\<close>,
  or with an expanded year \<^verbatim>\<open>+YYYYYY\<close> / \<^verbatim>\<open>-YYYYYY\<close>; month, day, hour, minute and second
  in their ranges.
\<close>

definition digits_value :: "string \<Rightarrow> nat" where
  "digits_value s = foldl (\<lambda>n c. 10 * n + (of_char c - 48)) 0 s"

definition two_digits :: "string \<Rightarrow> nat \<Rightarrow> nat \<Rightarrow> bool" where
  "two_digits s lo hi =
     (length s = 2 \<and> list_all is_digit s \<and> lo \<le> digits_value s \<and> digits_value s \<le> hi)"

definition iso_date_time :: "string \<Rightarrow> bool" where
  "iso_date_time s =
     (length s = 20
      \<and> s ! 0 = CHR ''-'' \<and> two_digits (substring s 1 3) 1 12
      \<and> s ! 3 = CHR ''-'' \<and> two_digits (substring s 4 6) 1 31
      \<and> s ! 6 = CHR ''T'' \<and> two_digits (substring s 7 9) 0 23
      \<and> s ! 9 = CHR '':'' \<and> two_digits (substring s 10 12) 0 59
      \<and> s ! 12 = CHR '':'' \<and> two_digits (substring s 13 15) 0 59
      \<and> s ! 15 = CHR ''.'' \<and> list_all is_digit (substring s 16 19)
      \<and> s ! 19 = CHR ''Z'')"

definition iso8601 :: "string \<Rightarrow> bool" where
  "iso8601 s =
     (case s of
        [] \<Rightarrow> False
      | c # cs \<Rightarrow>
          if c = CHR ''+'' \<or> c = CHR ''-''
          then list_all is_digit (take 6 cs) \<and> iso_date_time (drop 6 cs)
          else list_all is_digit (take 4 s) \<and> iso_date_time (drop 4 s))"

section \<open>HTTP requests and responses\<close>

datatype json = JString string | JNumber nat | JBool bool | JObject "(string \<times> json) list"

datatype body = Json json | ErrorPage string | Empty

record response =
  status :: nat
  body :: body

text \<open>\<^verbatim>\<open>res.status(code).json(value)\<close>; \<^verbatim>\<open>res.json(value)\<close> alone answers 200.\<close>

definition respond :: "nat \<Rightarrow> json \<Rightarrow> response" where
  "respond code v = \<lparr>status = code, body = Json v\<rparr>"

datatype http_method = GET | HEAD | POST | PUT | PATCH | DELETE | OPTIONS

text \<open>
  A part of a multipart body: a text field (name, value) or a file (field name, file
  name, content type, content).
\<close>

datatype form_part =
    Field string string
  | FilePart string string string "byte list"

text \<open>
  The body of a request with its content type: none, a JSON text (\<^verbatim>\<open>application/json\<close>,
  decoded), the parts of a \<^verbatim>\<open>multipart/form-data\<close> body in the order sent, or a body of
  any other content type.
\<close>

datatype payload = NoBody | JsonBody string | MultipartBody "form_part list" | OtherBody

text \<open>
  A request: method, path (without query string, and without percent escapes, on which
  parameter decoding is the identity) and body.
\<close>

record request =
  req_method :: http_method
  path :: string
  payload :: payload

definition multipart :: "request \<Rightarrow> bool" where
  "multipart req = (case payload req of MultipartBody ps \<Rightarrow> True | _ \<Rightarrow> False)"

definition parts :: "request \<Rightarrow> form_part list" where
  "parts req = (case payload req of MultipartBody ps \<Rightarrow> ps | _ \<Rightarrow> [])"

section \<open>The JSON body parser (server.js, line 19)\<close>

text \<open>
  \<^verbatim>\<open>express.json()\<close> runs on every request before the routes.  It reads a body declared as
  \<^verbatim>\<open>application/json\<close> up to its limit of 100kb, accepts the empty body, and otherwise
  wants the first character after white space to be a brace or a bracket and the text to
  be JSON; an error goes to \<^verbatim>\<open>next(err)\<close>.  What follows recognises JSON: a scanner for
  strings and numbers, the tokens of a text, and a pushdown recogniser over the tokens.
\<close>

datatype json_token =
  LBrace | RBrace | LBracket | RBracket | Comma | Colon | StringTok | NumberTok | LiteralTok

definition is_ws :: "char \<Rightarrow> bool" where
  "is_ws c = (c = CHR '' '' \<or> c = CHR 0x09 \<or> c = CHR 0x0A \<or> c = CHR 0x0D)"

definition is_hex_any :: "char \<Rightarrow> bool" where
  "is_hex_any c = (c \<in> set ''0123456789abcdefABCDEF'')"

definition json_escape_rest :: "string \<Rightarrow> string option" where
  "json_escape_rest s =
     (case s of
        [] \<Rightarrow> None
      | e # r \<Rightarrow>
          if e \<in> set [CHR 0x22, CHR 0x5C, CHR ''/'', CHR ''b'', CHR ''f'', CHR ''n'', CHR ''r'', CHR ''t'']
          then Some r
          else if e = CHR ''u'' \<and> 4 \<le> length r \<and> list_all is_hex_any (take 4 r)
          then Some (drop 4 r)
          else None)"

function json_string_rest :: "string \<Rightarrow> string option" where
  "json_string_rest [] = None"
| "json_string_rest (c # cs) =
     (if c = CHR 0x22 then Some cs
      else if c = CHR 0x5C then
        (case json_escape_rest cs of None \<Rightarrow> None | Some r \<Rightarrow> json_string_rest r)
      else if (of_char c :: nat) < 32 then None
      else json_string_rest cs)"
  by pat_completeness auto
termination
proof (relation "measure length", simp_all, goal_cases)
  case (1 c cs r)
  then show ?case
    by (cases cs) (auto simp: json_escape_rest_def split: if_splits)
qed

definition json_digits_rest :: "string \<Rightarrow> string option" where
  "json_digits_rest s = (if takeWhile is_digit s = [] then None else Some (dropWhile is_digit s))"

definition json_exponent_rest :: "string \<Rightarrow> string option" where
  "json_exponent_rest s =
     (case s of
        [] \<Rightarrow> Some s
      | e # x \<Rightarrow>
          if e = CHR ''e'' \<or> e = CHR ''E'' then
            (case x of
               [] \<Rightarrow> None
             | sg # y \<Rightarrow> if sg = CHR ''+'' \<or> sg = CHR ''-'' then json_digits_rest y
                        else json_digits_rest x)
          else Some s)"

definition json_fraction_rest :: "string \<Rightarrow> string option" where
  "json_fraction_rest s =
     (case s of
        [] \<Rightarrow> Some s
      | p # f \<Rightarrow>
          if p = CHR ''.'' then
            (case json_digits_rest f of None \<Rightarrow> None | Some r \<Rightarrow> json_exponent_rest r)
          else json_exponent_rest s)"

definition json_number_rest :: "string \<Rightarrow> string option" where
  "json_number_rest s =
     (case (case s of [] \<Rightarrow> [] | c # cs \<Rightarrow> if c = CHR ''-'' then cs else s) of
        [] \<Rightarrow> None
      | d # ds \<Rightarrow>
          if \<not> is_digit d then None
          else if d = CHR ''0'' then json_fraction_rest ds
          else json_fraction_rest (dropWhile is_digit ds))"


function json_tokens :: "string \<Rightarrow> json_token list option" where
  "json_tokens [] = Some []"
| "json_tokens (c # cs) =
     (if is_ws c then json_tokens cs
      else if c = CHR ''{'' then map_option ((#) LBrace) (json_tokens cs)
      else if c = CHR ''}'' then map_option ((#) RBrace) (json_tokens cs)
      else if c = CHR ''['' then map_option ((#) LBracket) (json_tokens cs)
      else if c = CHR '']'' then map_option ((#) RBracket) (json_tokens cs)
      else if c = CHR '','' then map_option ((#) Comma) (json_tokens cs)
      else if c = CHR '':'' then map_option ((#) Colon) (json_tokens cs)
      else if c = CHR 0x22 then
        (case json_string_rest cs of
           None \<Rightarrow> None
         | Some r \<Rightarrow> map_option ((#) StringTok) (json_tokens r))
      else if c = CHR ''-'' \<or> is_digit c then
        (case json_number_rest (c # cs) of
           None \<Rightarrow> None
         | Some r \<Rightarrow> map_option ((#) NumberTok) (json_tokens r))
      else if startsWith (c # cs) ''true'' then map_option ((#) LiteralTok) (json_tokens (drop 3 cs))
      else if startsWith (c # cs) ''null'' then map_option ((#) LiteralTok) (json_tokens (drop 3 cs))
      else if startsWith (c # cs) ''false'' then map_option ((#) LiteralTok) (json_tokens (drop 4 cs))
      else None)"
  by pat_completeness auto
termination
proof (relation "measure length", simp_all, goal_cases)
  case (1 c cs r)
  have "json_string_rest s = Some t \<Longrightarrow> length t < length s" for s t
  proof (induction s arbitrary: t rule: json_string_rest.induct)
    case 1
    then show ?case by simp
  next
    case (2 d ds)
    show ?case
    proof (cases "d = CHR 0x22")
      case True
      with 2(3) show ?thesis by simp
    next
      case q: False
      show ?thesis
      proof (cases "d = CHR 0x5C")
        case True
        with q 2(3) obtain r0 where e: "json_escape_rest ds = Some r0"
          and r: "json_string_rest r0 = Some t"
          by (auto split: option.splits)
        from e have "length r0 < length ds"
          by (cases ds) (auto simp: json_escape_rest_def split: if_splits)
        with 2(1) [OF q True e r] show ?thesis by simp
      next
        case b: False
        with q 2(3) have c: "\<not> (of_char d :: nat) < 32" and r: "json_string_rest ds = Some t"
          by (auto split: if_splits)
        from 2(2) [OF q b c r] show ?thesis by simp
      qed
    qed
  qed
  from this [of cs r] 1 show ?case by simp
next
  case (2 c cs r)
  have d: "json_digits_rest s = Some t \<Longrightarrow> length t \<le> length s" for s t
    by (auto simp: json_digits_rest_def length_dropWhile_le split: if_splits)
  have e: "json_exponent_rest s = Some t \<Longrightarrow> length t \<le> length s" for s t
    by (auto simp: json_exponent_rest_def split: list.splits if_splits dest!: d)
  have f: "json_fraction_rest s = Some t \<Longrightarrow> length t \<le> length s" for s t
    by (auto simp: json_fraction_rest_def split: list.splits if_splits option.splits
        dest!: d e)
  have w: "length (dropWhile is_digit xs) \<le> length xs" for xs :: string
    by (rule length_dropWhile_le)
  have "json_number_rest s = Some t \<Longrightarrow> length t < length s" for s t
    using w
    by (auto simp: json_number_rest_def split: list.splits if_splits
        dest!: f intro: le_less_trans le_trans less_SucI)
  from this [of "c # cs" r] 2 show ?case by simp
qed

datatype json_state =
  ExpectValue | ExpectValueOrClose | ExpectKeyOrClose | ExpectKey | ExpectColon | AfterValue

datatype json_context = InObject | InArray

definition json_value_start ::
  "json_context list \<Rightarrow> json_token \<Rightarrow> (json_state \<times> json_context list) option" where
  "json_value_start stack t =
     (case t of
        StringTok \<Rightarrow> Some (AfterValue, stack)
      | NumberTok \<Rightarrow> Some (AfterValue, stack)
      | LiteralTok \<Rightarrow> Some (AfterValue, stack)
      | LBrace \<Rightarrow> Some (ExpectKeyOrClose, InObject # stack)
      | LBracket \<Rightarrow> Some (ExpectValueOrClose, InArray # stack)
      | _ \<Rightarrow> None)"

fun json_step ::
  "json_state \<Rightarrow> json_context list \<Rightarrow> json_token \<Rightarrow> (json_state \<times> json_context list) option" where
  "json_step ExpectValue stack t = json_value_start stack t"
| "json_step ExpectValueOrClose stack t =
     (if t = RBracket then Some (AfterValue, tl stack) else json_value_start stack t)"
| "json_step ExpectKeyOrClose stack t =
     (if t = RBrace then Some (AfterValue, tl stack)
      else if t = StringTok then Some (ExpectColon, stack) else None)"
| "json_step ExpectKey stack t = (if t = StringTok then Some (ExpectColon, stack) else None)"
| "json_step ExpectColon stack t = (if t = Colon then Some (ExpectValue, stack) else None)"
| "json_step AfterValue stack t =
     (case stack of
        [] \<Rightarrow> None
      | InArray # rest \<Rightarrow>
          if t = Comma then Some (ExpectValue, stack)
          else if t = RBracket then Some (AfterValue, rest) else None
      | InObject # rest \<Rightarrow>
          if t = Comma then Some (ExpectKey, stack)
          else if t = RBrace then Some (AfterValue, rest) else None)"

fun json_accepts :: "json_state \<Rightarrow> json_context list \<Rightarrow> json_token list \<Rightarrow> bool" where
  "json_accepts st stack [] = (st = AfterValue \<and> stack = [])"
| "json_accepts st stack (t # ts) =
     (case json_step st stack t of
        None \<Rightarrow> False
      | Some (st', stack') \<Rightarrow> json_accepts st' stack' ts)"

definition JSON_parse_ok :: "string \<Rightarrow> bool" where
  "JSON_parse_ok text =
     (case json_tokens text of None \<Rightarrow> False | Some ts \<Rightarrow> json_accepts ExpectValue [] ts)"

text \<open>The first character that is not white space, if any.\<close>

definition firstchar :: "string \<Rightarrow> char option" where
  "firstchar text = (case dropWhile is_ws text of [] \<Rightarrow> None | c # cs \<Rightarrow> Some c)"

definition json_limit :: nat where
  "json_limit = 100 * 1024"

definition express_json :: "request \<Rightarrow> world \<Rightarrow> js_error + unit" where
  "express_json req w =
     (case payload req of
        JsonBody text \<Rightarrow>
          if json_limit < length (utf8 text) then Inl (Error ''request entity too large'')
          else if text = [] then Inr ()
          else if firstchar text \<noteq> Some CHR ''{'' \<and> firstchar text \<noteq> Some CHR ''[''
          then Inl (SyntaxError (syntax_message w text))
          else if \<not> JSON_parse_ok text then Inl (SyntaxError (syntax_message w text))
          else Inr ()
      | _ \<Rightarrow> Inr ())"

text \<open>The requests the body parser lets through: those it hands to \<^verbatim>\<open>next()\<close>.\<close>

definition body_accepted :: "request \<Rightarrow> bool" where
  "body_accepted req =
     (case payload req of
        JsonBody text \<Rightarrow>
          length (utf8 text) \<le> json_limit
          \<and> (text = []
               \<or> ((firstchar text = Some CHR ''{'' \<or> firstchar text = Some CHR ''['')
                    \<and> JSON_parse_ok text))
      | _ \<Rightarrow> True)"

section \<open>The upload middleware (server.js, lines 21-33)\<close>

record multer_file =
  fieldname :: string
  originalname :: string
  mimetype :: string
  buffer :: "byte list"

text \<open>\<^verbatim>\<open>error.message\<close>.\<close>

fun message :: "js_error \<Rightarrow> string" where
  "message (MulterError LIMIT_FILE_SIZE) = ''File too large''"
| "message (MulterError LIMIT_UNEXPECTED_FILE) = ''Unexpected field''"
| "message (Error m) = m"
| "message (RangeError m) = m"
| "message (SyntaxError m) = m"

text \<open>The \<^verbatim>\<open>fileFilter\<close> callback: what it hands to \<^verbatim>\<open>cb\<close>, an error or the decision.\<close>

definition fileFilter :: "multer_file \<Rightarrow> js_error + bool" where
  "fileFilter file =
     (if startsWith (mimetype file) ''image/'' then Inr True
      else Inl (Error ''Only image files allowed''))"

definition fileSize :: nat where
  "fileSize = 5 * 1024 * 1024"

text \<open>
  The multipart parser behind \<^verbatim>\<open>upload.single(name)\<close>, over the parts in order; \<open>left\<close> is
  the number of files still accepted under \<open>name\<close>.  Text fields go to \<^verbatim>\<open>req.body\<close>.  A
  file part without a file name is skipped.  A file under another field name, or a
  second file, is \<^verbatim>\<open>LIMIT_UNEXPECTED_FILE\<close>.  Then the filter runs, and a file it accepts
  is read into memory up to the size limit; one byte more is \<^verbatim>\<open>LIMIT_FILE_SIZE\<close>.  The
  first error ends the parse and goes to \<^verbatim>\<open>next(err)\<close>.
\<close>

fun multer_parts ::
  "(multer_file \<Rightarrow> js_error + bool) \<Rightarrow> nat \<Rightarrow> string \<Rightarrow> nat \<Rightarrow> form_part list \<Rightarrow> multer_file option
     \<Rightarrow> js_error + multer_file option" where
  "multer_parts accept limit name left [] req_file = Inr req_file"
| "multer_parts accept limit name left (Field k v # ps) req_file =
     multer_parts accept limit name left ps req_file"
| "multer_parts accept limit name left (FilePart fld fname mime bytes # ps) req_file =
     (if fname = [] then multer_parts accept limit name left ps req_file
      else if fld \<noteq> name \<or> left = 0 then Inl (MulterError LIMIT_UNEXPECTED_FILE)
      else
        let f = \<lparr>fieldname = fld, originalname = fname, mimetype = mime, buffer = bytes\<rparr>
        in case accept f of
             Inl err \<Rightarrow> Inl err
           | Inr includeFile \<Rightarrow>
               if \<not> includeFile then multer_parts accept limit name (left - 1) ps req_file
               else if limit < length bytes then Inl (MulterError LIMIT_FILE_SIZE)
               else multer_parts accept limit name (left - 1) ps (Some f))"

text \<open>A request that is not multipart passes through untouched, with no \<^verbatim>\<open>req.file\<close>.\<close>

definition multer_single ::
  "(multer_file \<Rightarrow> js_error + bool) \<Rightarrow> nat \<Rightarrow> string \<Rightarrow> request \<Rightarrow> js_error + multer_file option" where
  "multer_single accept limit name req =
     (if \<not> multipart req then Inr None
      else multer_parts accept limit name 1 (parts req) None)"

definition upload_single :: "string \<Rightarrow> request \<Rightarrow> js_error + multer_file option" where
  "upload_single name req = multer_single fileFilter fileSize name req"

section \<open>Storage gateway: the calls made on the storage client\<close>

datatype 'a completion = Returned 'a | Thrown

definition gateway_answer :: "world \<Rightarrow> upstream" where
  "gateway_answer w = upstream w (length (gateway_calls w))"

definition logged :: "gateway_call \<Rightarrow> world \<Rightarrow> world" where
  "logged c w = w\<lparr>gateway_calls := gateway_calls w @ [c]\<rparr>"

text \<open>
  \<^verbatim>\<open>supabase.storage.from(BUCKET_NAME).upload(key, bytes, {upsert: false, contentType})\<close>:
  the \<^verbatim>\<open>error\<close> of the result (\<open>None\<close> for \<^verbatim>\<open>null\<close>).  With upsert off an existing key is
  not overwritten.
\<close>

definition storage_upload ::
  "string \<Rightarrow> byte list \<Rightarrow> string \<Rightarrow> world \<Rightarrow> string option completion \<times> world" where
  "storage_upload key bytes ctype w =
     (let w' = logged (Upload (BUCKET_NAME w) key bytes ctype) w
      in case gateway_answer w of
           Throws \<Rightarrow> (Thrown, w')
         | Fails msg \<Rightarrow> (Returned (Some msg), w')
         | Proceeds \<Rightarrow>
             if objects w key \<noteq> None then (Returned (Some ''The resource already exists''), w')
             else (Returned None, w'\<lparr>objects := (objects w)(key \<mapsto> (bytes, ctype))\<rparr>))"

text \<open>\<^verbatim>\<open>supabase.storage.from(BUCKET_NAME).remove(keys)\<close>: a missing key is no error.\<close>

definition storage_remove ::
  "string list \<Rightarrow> world \<Rightarrow> string option completion \<times> world" where
  "storage_remove keys w =
     (let w' = logged (Remove (BUCKET_NAME w) keys) w
      in case gateway_answer w of
           Throws \<Rightarrow> (Thrown, w')
         | Fails msg \<Rightarrow> (Returned (Some msg), w')
         | Proceeds \<Rightarrow>
             (Returned None, w'\<lparr>objects := (\<lambda>k. if k \<in> set keys then None else objects w k)\<rparr>))"

text \<open>\<^verbatim>\<open>getPublicUrl(key).data.publicUrl\<close>: composed from the configuration, no call made.\<close>

definition getPublicUrl :: "string \<Rightarrow> world \<Rightarrow> string" where
  "getPublicUrl key w =
     SUPABASE_URL w @ ''/storage/v1/object/public/'' @ BUCKET_NAME w @ ''/'' @ key"

section \<open>The handlers (server.js, lines 45-166)\<close>

definition failure :: "nat \<Rightarrow> string \<Rightarrow> response" where
  "failure code msg =
     respond code (JObject [(''success'', JBool False), (''error'', JString msg)])"

text \<open>Error handling middleware, lines 152-166.\<close>

definition errorMiddleware :: "js_error \<Rightarrow> response" where
  "errorMiddleware error =
     (case error of
        MulterError code \<Rightarrow>
          if code = LIMIT_FILE_SIZE then failure 400 ''File too large (max 5MB)''
          else failure 500 (or_else (Some (message error)) ''Something went wrong'')
      | _ \<Rightarrow> failure 500 (or_else (Some (message error)) ''Something went wrong''))"

text \<open>
  \<^verbatim>\<open>GET /health\<close>, lines 46-52.  An exception of a synchronous handler goes to the error
  handling middleware.
\<close>

definition health :: "world \<Rightarrow> response \<times> world" where
  "health w =
     (let (t, w1) = Date_now w
      in case toISOString t of
           Inl err \<Rightarrow> (errorMiddleware err, w1)
         | Inr timestamp \<Rightarrow>
             (respond 200 (JObject [(''status'', JString ''OK''),
                                    (''timestamp'', JString timestamp),
                                    (''service'', JString ''Photo Upload API'')]), w1))"

text \<open>The handler of \<^verbatim>\<open>POST /upload\<close>, lines 55-108, on the \<^verbatim>\<open>req.file\<close> the middleware left.\<close>

definition upload_handler :: "multer_file option \<Rightarrow> world \<Rightarrow> response \<times> world" where
  "upload_handler req_file w =
     (case req_file of
        None \<Rightarrow> (failure 400 ''No photo file provided'', w)
      | Some f \<Rightarrow>
          let (uniqueFilename, w1) = generateUniqueFilename (originalname f) w;
              (r, w2) = storage_upload uniqueFilename (buffer f) (mimetype f) w1
          in case r of
               Thrown \<Rightarrow> (failure 500 ''Internal server error'', w2)
             | Returned (Some msg) \<Rightarrow> (failure 500 (''Upload failed: '' @ msg), w2)
             | Returned None \<Rightarrow>
                 (respond 200
                    (JObject [(''success'', JBool True),
                              (''message'', JString ''Photo uploaded successfully''),
                              (''data'', JObject [(''filename'', JString uniqueFilename),
                                                  (''url'', JString (getPublicUrl uniqueFilename w2)),
                                                  (''size'', JNumber (length (buffer f))),
                                                  (''type'', JString (mimetype f))])]), w2))"

text \<open>The route \<^verbatim>\<open>POST /upload\<close>: the middleware, then the handler or the error middleware.\<close>

definition post_upload :: "request \<Rightarrow> world \<Rightarrow> response \<times> world" where
  "post_upload req w =
     (case upload_single ''photo'' req of
        Inl err \<Rightarrow> (errorMiddleware err, w)
      | Inr req_file \<Rightarrow> upload_handler req_file w)"

text \<open>The handler of \<^verbatim>\<open>DELETE /delete/:filename\<close>, lines 111-149, on \<^verbatim>\<open>req.params.filename\<close>.\<close>

definition delete_handler :: "string \<Rightarrow> world \<Rightarrow> response \<times> world" where
  "delete_handler filename w =
     (if filename = [] then (failure 400 ''Filename is required'', w)
      else
        let (r, w1) = storage_remove [filename] w
        in case r of
             Thrown \<Rightarrow> (failure 500 ''Internal server error'', w1)
           | Returned (Some msg) \<Rightarrow> (failure 500 (''Delete failed: '' @ msg), w1)
           | Returned None \<Rightarrow>
               (respond 200
                  (JObject [(''success'', JBool True),
                            (''message'', JString ''Photo deleted successfully''),
                            (''data'', JObject [(''filename'', JString filename)])]), w1))"

section \<open>Routing\<close>

definition toLowerCase :: "string \<Rightarrow> string" where
  "toLowerCase s =
     map (\<lambda>c. let k = (of_char c :: nat) in if 65 \<le> k \<and> k \<le> 90 then char_of (k + 32) else c) s"

text \<open>
  A route path without parameters matches the request path itself and the path with one
  trailing slash, in any letter case.
\<close>

definition route_matches :: "string \<Rightarrow> string \<Rightarrow> bool" where
  "route_matches route p = (toLowerCase p = route \<or> toLowerCase p = route @ ''/'')"

text \<open>
  \<^verbatim>\<open>/delete/:filename\<close>: after the prefix, the parameter is one non-empty segment without a
  slash, optionally followed by one trailing slash.  \<open>None\<close>: the route does not match.
\<close>

definition match_delete :: "string \<Rightarrow> string option" where
  "match_delete p =
     (let rest = drop 8 p;
          seg = (if rest \<noteq> [] \<and> last rest = CHR ''/'' then butlast rest else rest)
      in if toLowerCase (take 8 p) = ''/delete/'' \<and> seg \<noteq> [] \<and> CHR ''/'' \<notin> set seg
         then Some seg else None)"

fun method_name :: "http_method \<Rightarrow> string" where
  "method_name GET = ''GET''"
| "method_name HEAD = ''HEAD''"
| "method_name POST = ''POST''"
| "method_name PUT = ''PUT''"
| "method_name PATCH = ''PATCH''"
| "method_name DELETE = ''DELETE''"
| "method_name OPTIONS = ''OPTIONS''"

text \<open>
  The routes in the order they are registered (a \<^verbatim>\<open>GET\<close> route serves \<^verbatim>\<open>HEAD\<close> too); a
  request that no route matches gets the framework's 404 page.
\<close>

definition routes :: "request \<Rightarrow> world \<Rightarrow> response \<times> world" where
  "routes req w =
     (if (req_method req = GET \<or> req_method req = HEAD) \<and> route_matches ''/health'' (path req)
      then health w
      else if req_method req = POST \<and> route_matches ''/upload'' (path req)
      then post_upload req w
      else
        case (if req_method req = DELETE then match_delete (path req) else None) of
          Some filename \<Rightarrow> delete_handler filename w
        | None \<Rightarrow>
            (\<lparr>status = 404,
              body = ErrorPage (''Cannot '' @ method_name (req_method req) @ '' '' @ path req)\<rparr>, w))"

text \<open>
  The application, lines 17-19 and 45-166: \<^verbatim>\<open>cors()\<close> answers every \<^verbatim>\<open>OPTIONS\<close> request
  itself; then the JSON body parser, whose error goes to the error handling middleware;
  then the routes.
\<close>

definition app :: "request \<Rightarrow> world \<Rightarrow> response \<times> world" where
  "app req w =
     (if req_method req = OPTIONS then (\<lparr>status = 204, body = Empty\<rparr>, w)
      else
        case express_json req w of
          Inl err \<Rightarrow> (errorMiddleware err, w)
        | Inr u \<Rightarrow> routes req w)"

section \<open>Shapes of upload requests, and concrete inputs\<close>

text \<open>The first file part that carries a file name: the first file the parser looks at.\<close>

fun first_file :: "form_part list \<Rightarrow> (string \<times> string \<times> string \<times> byte list) option" where
  "first_file [] = None"
| "first_file (Field k v # ps) = first_file ps"
| "first_file (FilePart fld fname mime bytes # ps) =
     (if fname = [] then first_file ps else Some (fld, fname, mime, bytes))"



text \<open>An upload request that carries no file at all.\<close>

definition missing_file :: "request \<Rightarrow> bool" where
  "missing_file req = (\<not> multipart req \<or> first_file (parts req) = None)"

text \<open>An upload request whose file has a MIME type that does not start with \<^verbatim>\<open>image/\<close>.\<close>

definition non_image :: "request \<Rightarrow> bool" where
  "non_image req =
     (multipart req \<and>
      (case first_file (parts req) of
         None \<Rightarrow> False
       | Some (fld, fname, mime, bytes) \<Rightarrow> \<not> startsWith mime ''image/''))"

text \<open>An upload request whose file is larger than the limit.\<close>

definition oversized :: "request \<Rightarrow> bool" where
  "oversized req =
     (multipart req \<and>
      (case first_file (parts req) of
         None \<Rightarrow> False
       | Some (fld, fname, mime, bytes) \<Rightarrow> fileSize < length bytes))"


definition is_upload :: "request \<Rightarrow> bool" where
  "is_upload req = (req_method req = POST \<and> route_matches ''/upload'' (path req))"

definition world0 :: world where
  "world0 =
     \<lparr>clock = (\<lambda>k. 1735123456789 + 7 * k), clock_reads = 0,
      entropy = (\<lambda>k. of_nat (17 * k + 3)), entropy_taken = 0,
      SUPABASE_URL = ''https://project.supabase.co'', BUCKET_NAME = ''Photos'',
      objects = Map.empty, gateway_calls = [], upstream = (\<lambda>k. Proceeds),
      syntax_message = (\<lambda>text. ''Unexpected token in JSON'')\<rparr>"

definition upload_of :: "form_part list \<Rightarrow> request" where
  "upload_of ps = \<lparr>req_method = POST, path = ''/upload'', payload = MultipartBody ps\<rparr>"

definition health_request :: request where
  "health_request = \<lparr>req_method = GET, path = ''/health'', payload = NoBody\<rparr>"

definition delete_empty_request :: request where
  "delete_empty_request = \<lparr>req_method = DELETE, path = ''/delete/'', payload = NoBody\<rparr>"

definition no_body_request :: request where
  "no_body_request = \<lparr>req_method = POST, path = ''/upload'', payload = NoBody\<rparr>"

definition malformed_json_health_request :: request where
  "malformed_json_health_request =
     \<lparr>req_method = GET, path = ''/health'', payload = JsonBody ''{bad''\<rparr>"

definition json_health_request :: request where
  "json_health_request = \<lparr>req_method = GET, path = ''/health'', payload = JsonBody ''{}''\<rparr>"


definition text_file_request :: request where
  "text_file_request = upload_of [FilePart ''photo'' ''notes.txt'' ''text/plain'' [104, 105]]"



definition large_image_request :: request where
  "large_image_request =
     upload_of [FilePart ''photo'' ''big.png'' ''image/png'' (replicate (6 * 1024 * 1024) 0)]"

section \<open>Properties of the filename generator\<close>

lemma split_not_Nil [simp]: "split s sep \<noteq> []"
  by (induction s) (auto simp: Let_def)

lemma split_no_sep: "sep \<notin> set s \<Longrightarrow> split s sep = [s]"
  by (induction s) (auto simp: Let_def)

lemma split_append_sep: "split (a @ sep # b) sep = split a sep @ split b sep"
  by (induction a) (auto simp: Let_def)

lemma extension_no_dot: "CHR ''.'' \<notin> set s \<Longrightarrow> extension s = s"
proof -
  assume "CHR ''.'' \<notin> set s"
  then have "takeWhile (\<lambda>c. c \<noteq> CHR ''.'') (rev s) = rev s"
    by (auto simp: takeWhile_eq_all_conv)
  then show ?thesis unfolding extension_def by (simp only: rev_rev_ident)
qed

lemma extension_append_dot:
  "CHR ''.'' \<notin> set b \<Longrightarrow> extension (a @ CHR ''.'' # b) = b"
proof -
  assume "CHR ''.'' \<notin> set b"
  then have "takeWhile (\<lambda>c. c \<noteq> CHR ''.'') (rev b @ CHR ''.'' # rev a) = rev b"
    by (subst takeWhile_append2) auto
  then show ?thesis by (simp add: extension_def)
qed

lemma last_split_extension: "last (split s CHR ''.'') = extension s"
proof (cases "CHR ''.'' \<in> set s")
  case False
  then show ?thesis by (simp add: split_no_sep extension_no_dot)
next
  case True
  then obtain a b where s: "s = a @ CHR ''.'' # b" and b: "CHR ''.'' \<notin> set b"
    by (auto dest: split_list_last)
  show ?thesis
    by (simp add: s split_append_sep split_no_sep [OF b] extension_append_dot [OF b])
qed

lemma extension_dot_free: "CHR ''.'' \<notin> set (extension s)"
proof -
  have "CHR ''.'' \<notin> set (takeWhile (\<lambda>c. c \<noteq> CHR ''.'') (rev s))"
    by (auto dest: set_takeWhileD)
  then show ?thesis by (simp add: extension_def)
qed

lemma ext_of_extension:
  "ext_of n = (if extension n = [] then ''jpg'' else extension n)"
  by (simp add: ext_of_def pop_def or_else_def last_split_extension)

lemma ext_of_dot_free: "CHR ''.'' \<notin> set (ext_of n)"
  using extension_dot_free [of n] by (simp add: ext_of_extension)

lemma ext_of_not_Nil: "ext_of n \<noteq> []"
  by (simp add: ext_of_extension)

lemma is_hex_hex_digit: "is_hex (hex_digit n)"
proof -
  have "n mod 16 < length ''0123456789abcdef''" by simp
  then have "''0123456789abcdef'' ! (n mod 16) \<in> set ''0123456789abcdef''"
    by (rule nth_mem)
  then show ?thesis by (simp only: is_hex_def hex_digit_def)
qed

lemma is_digit_hex_digit: "n < 10 \<Longrightarrow> is_digit (hex_digit n)"
proof -
  assume n: "n < 10"
  then have "n < length ''0123456789''" by simp
  then have "''0123456789'' ! n \<in> set ''0123456789''" by (rule nth_mem)
  moreover have "''0123456789abcdef'' ! n = ''0123456789'' ! n"
    using n nth_take [of n 10 "''0123456789abcdef''"] by simp
  moreover have "n mod 16 = n" using n by simp
  ultimately show ?thesis by (simp only: is_digit_def hex_digit_def)
qed

lemma numberToString_digits: "list_all is_digit (numberToString n)"
proof (induction n rule: numberToString.induct)
  case (1 n)
  show ?case
  proof (cases "n < 10")
    case True
    then show ?thesis by (subst numberToString.simps) (simp add: is_digit_hex_digit)
  next
    case False
    then show ?thesis
      using 1 by (subst numberToString.simps) (simp add: is_digit_hex_digit)
  qed
qed

lemma numberToString_not_Nil: "numberToString n \<noteq> []"
  by (subst numberToString.simps) simp

lemma length_toString_hex: "length (toString_hex bs) = 2 * length bs"
  by (induction bs) (simp_all add: toString_hex_def hex_of_byte_def)

lemma toString_hex_is_hex: "list_all is_hex (toString_hex bs)"
  by (induction bs) (simp_all add: toString_hex_def hex_of_byte_def is_hex_hex_digit)

lemma length_md5: "length (md5 m) = 16"
  by (simp add: md5_def le_bytes_def Let_def split: prod.splits)

lemma length_md5_hex: "length (md5_hex s) = 32"
  by (simp add: md5_hex_def length_toString_hex length_md5)

lemma md5_hex_is_hex: "list_all is_hex (md5_hex s)"
  by (simp add: md5_hex_def toString_hex_is_hex)

lemma list_all_take: "list_all P xs \<Longrightarrow> list_all P (take n xs)"
  by (auto simp: list_all_iff dest: in_set_takeD)

lemma generateUniqueFilename_fst:
  "fst (generateUniqueFilename originalName w) =
     substring (md5_hex (originalName @ numberToString (clock w (clock_reads w)))) 0 8
       @ ''_'' @ toString_hex (map (entropy w) [entropy_taken w ..< entropy_taken w + 8])
       @ ''_'' @ numberToString (clock w (clock_reads w)) @ ''.'' @ ext_of originalName"
  by (simp add: generateUniqueFilename_def Date_now_def crypto_randomBytes_def ext_of_def
      Let_def del: upt_Suc)

lemma generateUniqueFilename_snd:
  "snd (generateUniqueFilename originalName w) =
     w\<lparr>clock_reads := Suc (clock_reads w), entropy_taken := entropy_taken w + 8\<rparr>"
  by (simp add: generateUniqueFilename_def Date_now_def crypto_randomBytes_def Let_def)

lemma substring_0: "substring s 0 n = take n s"
  by (simp add: substring_def)

lemma not_digit_dot: "\<not> is_digit CHR ''.''"
  by (simp add: is_digit_def)

lemma digits_no_dot: "list_all is_digit t \<Longrightarrow> CHR ''.'' \<notin> set t"
  using not_digit_dot by (auto simp: list_all_iff)

lemma takeWhile_stop:
  "list_all P xs \<Longrightarrow> \<not> P y \<Longrightarrow> takeWhile P (xs @ y # ys) = xs"
  by (induction xs) auto

lemma pattern_shape:
  assumes "length h = 8" "list_all is_hex h" "length r = 16" "list_all is_hex r"
    and "list_all is_digit t" "t \<noteq> []" "e \<noteq> []" "CHR ''.'' \<notin> set e"
  shows "matches_filename_pattern (h @ ''_'' @ r @ ''_'' @ t @ ''.'' @ e)"
proof -
  let ?s = "h @ ''_'' @ r @ ''_'' @ t @ ''.'' @ e"
  have d26: "drop 26 ?s = t @ CHR ''.'' # e"
    using assms(1,3) by simp
  have tw: "takeWhile is_digit (drop 26 ?s) = t"
    unfolding d26 using assms(5) not_digit_dot by (rule takeWhile_stop)
  have "drop (26 + length t) ?s = drop (length t) (drop 26 ?s)"
    by (simp only: drop_drop add.commute)
  then have rest: "drop (26 + length t) ?s = CHR ''.'' # e"
    unfolding d26 by simp
  have len: "26 < length ?s" using assms(1,3,6) by (cases t) simp_all
  have h: "take 8 ?s = h" using assms(1) by simp
  have r: "take 16 (drop 9 ?s) = r" using assms(1,3) by simp
  have u1: "?s ! 8 = CHR ''_''" using assms(1) by (simp add: nth_append)
  have u2: "?s ! 25 = CHR ''_''" using assms(1,3) by (simp add: nth_append)
  show ?thesis
    unfolding matches_filename_pattern_def Let_def tw rest h r
    using len u1 u2 assms by simp
qed

text \<open>The pattern predicate says what the regular expression says.\<close>

lemma matches_filename_pattern_iff:
  "matches_filename_pattern s \<longleftrightarrow>
     (\<exists>h r t e. s = h @ ''_'' @ r @ ''_'' @ t @ ''.'' @ e
        \<and> length h = 8 \<and> list_all is_hex h \<and> length r = 16 \<and> list_all is_hex r
        \<and> t \<noteq> [] \<and> list_all is_digit t \<and> e \<noteq> [] \<and> CHR ''.'' \<notin> set e)"
  (is "?L \<longleftrightarrow> ?R")
proof
  assume ?R
  then obtain h r t e where "s = h @ ''_'' @ r @ ''_'' @ t @ ''.'' @ e"
    "length h = 8" "list_all is_hex h" "length r = 16" "list_all is_hex r"
    "t \<noteq> []" "list_all is_digit t" "e \<noteq> []" "CHR ''.'' \<notin> set e"
    by blast
  then show ?L using pattern_shape [of h r t e] by simp
next
  assume L: ?L
  define t where "t = takeWhile is_digit (drop 26 s)"
  from L have len: "26 < length s"
    and h: "list_all is_hex (take 8 s)" and u1: "s ! 8 = CHR ''_''"
    and r: "list_all is_hex (take 16 (drop 9 s))" and u2: "s ! 25 = CHR ''_''"
    and t: "t \<noteq> []"
    and tl: "case drop (26 + length t) s of [] \<Rightarrow> False
             | c # e \<Rightarrow> c = CHR ''.'' \<and> e \<noteq> [] \<and> CHR ''.'' \<notin> set e"
    unfolding matches_filename_pattern_def Let_def t_def by simp_all
  from tl obtain e where e: "drop (26 + length t) s = CHR ''.'' # e" "e \<noteq> []" "CHR ''.'' \<notin> set e"
    by (auto split: list.splits)
  have td: "list_all is_digit t"
    unfolding t_def by (auto simp: list_all_iff dest: set_takeWhileD)
  have "t = take (length t) (drop 26 s)"
    unfolding t_def by (rule takeWhile_eq_take)
  moreover have "drop (length t) (drop 26 s) = CHR ''.'' # e"
    using e(1) by (simp add: add.commute)
  ultimately have d26: "drop 26 s = t @ CHR ''.'' # e"
    using append_take_drop_id [of "length t" "drop 26 s"] by simp
  have "take 9 s = take 8 s @ [s ! 8]"
    using len take_Suc_conv_app_nth [of 8 s] by simp
  moreover have "take 25 s = take 9 s @ take 16 (drop 9 s)"
    using take_add [of 9 16 s] by simp
  moreover have "take 26 s = take 25 s @ [s ! 25]"
    using len take_Suc_conv_app_nth [of 25 s] by simp
  ultimately have t26: "take 26 s = take 8 s @ ''_'' @ take 16 (drop 9 s) @ ''_''"
    using u1 u2 by simp
  have "s = take 26 s @ drop 26 s" by simp
  then have "s = take 8 s @ ''_'' @ take 16 (drop 9 s) @ ''_'' @ t @ ''.'' @ e"
    unfolding t26 d26 by simp
  moreover have "length (take 8 s) = 8" "length (take 16 (drop 9 s)) = 16"
    using len by simp_all
  ultimately show ?R using h r t td e(2,3) by blast
qed

lemma hash_is_hex:
  "length (substring (md5_hex s) 0 8) = 8 \<and> list_all is_hex (substring (md5_hex s) 0 8)"
  by (simp add: substring_0 length_md5_hex list_all_take md5_hex_is_hex)

lemma random_is_hex:
  "length (toString_hex (map f [k ..< k + 8])) = 16
     \<and> list_all is_hex (toString_hex (map f [k ..< k + 8]))"
  by (simp add: length_toString_hex toString_hex_is_hex del: upt_Suc)

lemma generated_extension:
  "extension (fst (generateUniqueFilename originalName w)) = ext_of originalName"
proof -
  have "fst (generateUniqueFilename originalName w) =
      (substring (md5_hex (originalName @ numberToString (clock w (clock_reads w)))) 0 8
       @ ''_'' @ toString_hex (map (entropy w) [entropy_taken w ..< entropy_taken w + 8])
       @ ''_'' @ numberToString (clock w (clock_reads w))) @ CHR ''.'' # ext_of originalName"
    unfolding generateUniqueFilename_fst by simp
  then show ?thesis
    by (simp only: extension_append_dot [OF ext_of_dot_free])
qed


lemma generated_hash_part:
  "hash_part (fst (generateUniqueFilename originalName w)) =
     substring (md5_hex (originalName @ numberToString (clock w (clock_reads w)))) 0 8"
  unfolding generateUniqueFilename_fst hash_part_def
  using hash_is_hex [of "originalName @ numberToString (clock w (clock_reads w))"] by simp

lemma generated_timestamp_part:
  "timestamp_part (fst (generateUniqueFilename originalName w)) =
     numberToString (clock w (clock_reads w))"
proof -
  let ?t = "numberToString (clock w (clock_reads w))"
  have "drop 26 (fst (generateUniqueFilename originalName w)) =
      ?t @ CHR ''.'' # ext_of originalName"
    unfolding generateUniqueFilename_fst
    using hash_is_hex [of "originalName @ ?t"] random_is_hex [of "entropy w" "entropy_taken w"]
    by simp
  moreover have "list_all (\<lambda>c. c \<noteq> CHR ''.'') ?t"
    using digits_no_dot [OF numberToString_digits [of "clock w (clock_reads w)"]]
    by (auto simp: list_all_iff)
  ultimately show ?thesis
    unfolding timestamp_part_def by (simp add: takeWhile_stop)
qed

lemma of_char_hex_digit: "d < 10 \<Longrightarrow> of_char (hex_digit d) = (48 + d :: nat)"
proof -
  assume "d < 10"
  then have "d \<in> {0, 1, 2, 3, 4, 5, 6, 7, 8, 9}" by auto
  then show ?thesis by (auto simp: hex_digit_def)
qed

lemma digits_value_snoc:
  "digits_value (s @ [c]) = 10 * digits_value s + (of_char c - 48)"
  by (simp add: digits_value_def)

lemma digits_value_numberToString: "digits_value (numberToString n) = n"
proof (induction n rule: numberToString.induct)
  case (1 n)
  show ?case
  proof (cases "n < 10")
    case True
    then show ?thesis
      by (subst numberToString.simps) (simp add: digits_value_def of_char_hex_digit)
  next
    case False
    then have "digits_value (numberToString (n div 10)) = n div 10" using 1 by simp
    then show ?thesis
      using False
      by (subst numberToString.simps)
         (simp only: digits_value_snoc if_False of_char_hex_digit [of "n mod 10"], simp)
  qed
qed

lemma generateUniqueFilename_dot_free_name:
  "originalName \<noteq> [] \<Longrightarrow> CHR ''.'' \<notin> set originalName \<Longrightarrow>
     extension (fst (generateUniqueFilename originalName w)) = originalName"
  by (simp add: generated_extension ext_of_extension extension_no_dot)

text \<open>
  C1.  The claim: for an \<open>originalName\<close> without a dot the extension of the generated
  filename is \<^verbatim>\<open>jpg\<close>.  The code: \<^verbatim>\<open>originalName.split('.').pop()\<close> is the whole name
  when there is no dot, and \<^verbatim>\<open>|| 'jpg'\<close> applies to an empty piece only.  So for every
  non-empty name without a dot the extension of the generated filename is the name itself.
\<close>

theorem C1_dot_free_name_becomes_extension:
  assumes "originalName \<noteq> []" and "CHR ''.'' \<notin> set originalName"
  shows "extension (fst (generateUniqueFilename originalName w)) = originalName
         \<and> (originalName \<noteq> ''jpg'' \<longrightarrow>
              extension (fst (generateUniqueFilename originalName w)) \<noteq> ''jpg'')"
  using assms by (simp add: generateUniqueFilename_dot_free_name)

theorem C1_dot_free_name_witness:
  "extension (fst (generateUniqueFilename ''photo'' world0)) = ''photo''
   \<and> extension (fst (generateUniqueFilename ''photo'' world0)) \<noteq> ''jpg''"
  using C1_dot_free_name_becomes_extension [of "''photo''" world0] by simp

text \<open>
  C4.  Every generated filename matches
  \<^verbatim>\<open>^[0-9a-f]{8}_[0-9a-f]{16}_[0-9]+\.[^.]+$\<close>, whatever the original name, the reading of
  the clock and the random bytes.
\<close>

theorem C4_filename_matches_pattern:
  "matches_filename_pattern (fst (generateUniqueFilename originalName w))"
proof -
  let ?t = "numberToString (clock w (clock_reads w))"
  let ?h = "substring (md5_hex (originalName @ ?t)) 0 8"
  let ?r = "toString_hex (map (entropy w) [entropy_taken w ..< entropy_taken w + 8])"
  have h: "length ?h = 8" "list_all is_hex ?h"
    using hash_is_hex [of "originalName @ ?t"] by simp_all
  have r: "length ?r = 16" "list_all is_hex ?r"
    using random_is_hex [of "entropy w" "entropy_taken w"] by simp_all
  have "matches_filename_pattern (?h @ ''_'' @ ?r @ ''_'' @ ?t @ ''.'' @ ext_of originalName)"
    using h r numberToString_digits numberToString_not_Nil ext_of_not_Nil ext_of_dot_free
    by (rule pattern_shape)
  then show ?thesis by (simp only: generateUniqueFilename_fst)
qed



text \<open>
  C10.  One reading of the clock serves the whole call: the decimal timestamp in the
  generated filename is the numeral of that reading, and the hash part is the first eight
  hexadecimal digits of the MD5 of \<open>originalName\<close> followed by that same numeral.  The call
  reads the clock once.
\<close>

theorem C10_single_timestamp:
  "timestamp_part (fst (generateUniqueFilename originalName w))
     = numberToString (clock w (clock_reads w))
   \<and> digits_value (timestamp_part (fst (generateUniqueFilename originalName w)))
     = clock w (clock_reads w)
   \<and> hash_part (fst (generateUniqueFilename originalName w))
     = substring (md5_hex (originalName @ numberToString (clock w (clock_reads w)))) 0 8
   \<and> clock_reads (snd (generateUniqueFilename originalName w)) = Suc (clock_reads w)"
  by (simp only: generated_timestamp_part generated_hash_part digits_value_numberToString
      generateUniqueFilename_snd, simp)

section \<open>Properties of the JSON body parser\<close>

text \<open>The recogniser on a few texts.\<close>

lemma JSON_parse_ok_examples:
  "JSON_parse_ok ''[1, -2.5e3, true, null]''"
  "JSON_parse_ok (''{'' @ [CHR 0x22] @ ''a'' @ [CHR 0x22] @ '':{'' @ [CHR 0x22] @ ''b'' @ [CHR 0x22] @ '':[]}}'')"
  "\<not> JSON_parse_ok ''[1,]''"
  "\<not> JSON_parse_ok ''[01]''"
  "\<not> JSON_parse_ok ''''"
  "\<not> JSON_parse_ok ''{bad''"
  "\<not> JSON_parse_ok (''{'' @ [CHR 0x22] @ ''a'' @ [CHR 0x22] @ '':1,}'')"
  by (simp_all add: JSON_parse_ok_def is_ws_def is_digit_def json_value_start_def
      json_number_rest_def json_fraction_rest_def json_exponent_rest_def json_digits_rest_def
      json_escape_rest_def)

lemma express_json_accepted: "body_accepted req \<Longrightarrow> express_json req w = Inr ()"
  by (auto simp: body_accepted_def express_json_def split: payload.splits)

lemma express_json_rejected:
  assumes "\<not> body_accepted req"
  shows "\<exists>msg. express_json req w = Inl (Error msg) \<or> express_json req w = Inl (SyntaxError msg)"
  using assms by (auto simp: body_accepted_def express_json_def split: payload.splits)

lemma multipart_accepted: "multipart req \<Longrightarrow> body_accepted req"
  by (auto simp: multipart_def body_accepted_def split: payload.splits)

lemma status_failure: "status (failure code msg) = code"
  by (simp add: failure_def respond_def)

lemma errorMiddleware_plain:
  "errorMiddleware (Error msg) = failure 500 (or_else (Some msg) ''Something went wrong'')"
  "errorMiddleware (SyntaxError msg) = failure 500 (or_else (Some msg) ''Something went wrong'')"
  by (simp_all add: errorMiddleware_def)

lemma app_routes:
  "req_method req \<noteq> OPTIONS \<Longrightarrow> body_accepted req \<Longrightarrow> app req w = routes req w"
  by (simp add: app_def express_json_accepted)

lemma app_rejected_body:
  assumes "req_method req \<noteq> OPTIONS" and "\<not> body_accepted req"
  shows "status (fst (app req w)) = 500 \<and> snd (app req w) = w"
  using assms(1) express_json_rejected [OF assms(2), of w]
  by (auto simp: app_def errorMiddleware_plain status_failure)

lemma body_accepted_no_body: "payload req = NoBody \<Longrightarrow> body_accepted req"
  by (simp add: body_accepted_def)

section \<open>Properties of the upload route\<close>

lemma multer_parts_no_file:
  "first_file ps = None \<Longrightarrow> multer_parts accept limit name left ps req_file = Inr req_file"
  by (induction ps rule: first_file.induct) (simp_all split: if_splits)

lemma multer_parts_skip_unnamed:
  "multer_parts accept limit name left (FilePart fld [] mime bytes # ps) req_file =
   multer_parts accept limit name left ps req_file"
  by simp

lemma multer_parts_first_file:
  assumes "first_file ps = Some (fld, fname, mime, bytes)"
  shows "\<exists>rest. fname \<noteq> [] \<and>
           multer_parts accept limit name left ps req_file =
           multer_parts accept limit name left (FilePart fld fname mime bytes # rest) req_file"
  using assms
proof (induction ps rule: first_file.induct)
  case 1
  then show ?case by simp
next
  case (2 k v ps)
  then show ?case by (simp del: multer_parts.simps(3))
next
  case (3 fld' fname' mime' bytes' ps)
  show ?case
  proof (cases "fname' = []")
    case True
    with 3 show ?thesis
      by (simp del: multer_parts.simps(3) add: multer_parts_skip_unnamed)
  next
    case False
    with 3 have "fld' = fld" "fname' = fname" "mime' = mime" "bytes' = bytes" by simp_all
    with False show ?thesis by blast
  qed
qed

lemma upload_single_missing_file:
  "missing_file req \<Longrightarrow> upload_single name req = Inr None"
  by (auto simp: missing_file_def upload_single_def multer_single_def multer_parts_no_file)

lemma upload_single_non_image:
  assumes "non_image req"
  shows "upload_single name req = Inl (MulterError LIMIT_UNEXPECTED_FILE)
         \<or> upload_single name req = Inl (Error ''Only image files allowed'')"
proof -
  from assms obtain fld fname mime bytes where
    mp: "multipart req" and ff: "first_file (parts req) = Some (fld, fname, mime, bytes)"
    and mime: "\<not> startsWith mime ''image/''"
    by (auto simp: non_image_def split: option.splits)
  from multer_parts_first_file [OF ff] obtain rest where
    "fname \<noteq> []"
    "multer_parts fileFilter fileSize name 1 (parts req) None =
     multer_parts fileFilter fileSize name 1 (FilePart fld fname mime bytes # rest) None"
    by blast
  with mp mime show ?thesis
    by (simp add: upload_single_def multer_single_def fileFilter_def)
qed

lemma upload_single_photo_non_image:
  assumes "multipart req"
    and "first_file (parts req) = Some (''photo'', fname, mime, bytes)"
    and "\<not> startsWith mime ''image/''"
  shows "upload_single ''photo'' req = Inl (Error ''Only image files allowed'')"
proof -
  from multer_parts_first_file [OF assms(2)] obtain rest where
    "fname \<noteq> []"
    "multer_parts fileFilter fileSize ''photo'' 1 (parts req) None =
     multer_parts fileFilter fileSize ''photo'' 1 (FilePart ''photo'' fname mime bytes # rest) None"
    by blast
  with assms(1,3) show ?thesis
    by (simp add: upload_single_def multer_single_def fileFilter_def)
qed

lemma upload_single_oversized:
  assumes "oversized req"
  shows "\<exists>err. upload_single name req = Inl err"
proof -
  from assms obtain fld fname mime bytes where
    mp: "multipart req" and ff: "first_file (parts req) = Some (fld, fname, mime, bytes)"
    and big: "fileSize < length bytes"
    by (auto simp: oversized_def split: option.splits)
  from multer_parts_first_file [OF ff] obtain rest where
    "fname \<noteq> []"
    "multer_parts fileFilter fileSize name 1 (parts req) None =
     multer_parts fileFilter fileSize name 1 (FilePart fld fname mime bytes # rest) None"
    by blast
  with mp big show ?thesis
    by (simp add: upload_single_def multer_single_def fileFilter_def)
qed


lemma app_upload:
  "is_upload req \<Longrightarrow> body_accepted req \<Longrightarrow> app req w = post_upload req w"
  by (auto simp: app_routes routes_def is_upload_def)

lemma post_upload_error:
  "upload_single ''photo'' req = Inl err \<Longrightarrow> post_upload req w = (errorMiddleware err, w)"
  by (simp add: post_upload_def)

lemma post_upload_missing_file:
  "missing_file req \<Longrightarrow> post_upload req w = (failure 400 ''No photo file provided'', w)"
  by (simp add: post_upload_def upload_single_missing_file upload_handler_def)

lemma errorMiddleware_filter:
  "errorMiddleware (Error ''Only image files allowed'') = failure 500 ''Only image files allowed''"
  by (simp add: errorMiddleware_def or_else_def)

lemma errorMiddleware_unexpected:
  "errorMiddleware (MulterError LIMIT_UNEXPECTED_FILE) = failure 500 ''Unexpected field''"
  by (simp add: errorMiddleware_def or_else_def)


lemma is_upload_upload_of: "is_upload (upload_of ps)"
  by (simp add: is_upload_def upload_of_def route_matches_def toLowerCase_def)

lemma body_accepted_upload_of: "body_accepted (upload_of ps)"
  by (simp add: body_accepted_def upload_of_def)

lemma is_upload_not_OPTIONS: "is_upload req \<Longrightarrow> req_method req \<noteq> OPTIONS"
  by (auto simp: is_upload_def)

text \<open>
  C2.  The claim: an upload whose file has a MIME type that does not start with \<^verbatim>\<open>image/\<close>
  is answered with status 400.  The code: the filter's error is no \<^verbatim>\<open>MulterError\<close>, so the
  error handling middleware answers it with its last branch, status 500 and the error's
  message; the only error it answers with 400 is \<^verbatim>\<open>LIMIT_FILE_SIZE\<close>.  Every such upload is
  answered with status 500 and an error string (that of the filter, or that of a file
  under an unexpected field name), and nothing is stored.
\<close>

theorem C2_non_image_upload_status_500:
  assumes "is_upload req" and "non_image req"
  shows "(fst (app req w) = failure 500 ''Only image files allowed''
          \<or> fst (app req w) = failure 500 ''Unexpected field'')
         \<and> status (fst (app req w)) = 500 \<and> snd (app req w) = w"
proof -
  from assms(2) have "multipart req" by (simp add: non_image_def)
  then have a: "body_accepted req" by (rule multipart_accepted)
  show ?thesis
    using upload_single_non_image [OF assms(2), of "''photo''"]
    by (auto simp: app_upload [OF assms(1) a] post_upload_error errorMiddleware_filter
        errorMiddleware_unexpected status_failure)
qed

theorem C2_non_image_upload_witness:
  "is_upload text_file_request \<and> non_image text_file_request
   \<and> status (fst (app text_file_request world0)) = 500
   \<and> fst (app text_file_request world0) = failure 500 ''Only image files allowed''"
proof -
  have u: "is_upload text_file_request"
    by (simp add: text_file_request_def is_upload_upload_of)
  have n: "non_image text_file_request"
    by (simp add: text_file_request_def upload_of_def multipart_def parts_def non_image_def)
  have "upload_single ''photo'' text_file_request = Inl (Error ''Only image files allowed'')"
    by (rule upload_single_photo_non_image [where fname = "''notes.txt''" and mime = "''text/plain''"])
       (simp_all add: text_file_request_def upload_of_def multipart_def parts_def)
  moreover have a: "body_accepted text_file_request"
    by (simp add: text_file_request_def body_accepted_upload_of)
  ultimately have "fst (app text_file_request world0) = failure 500 ''Only image files allowed''"
    by (simp add: app_upload [OF u a] post_upload_error errorMiddleware_filter)
  with u n C2_non_image_upload_status_500 [OF u n, of world0] show ?thesis by simp
qed

text \<open>
  C5.  An upload that is rejected for its input (no file, a file whose MIME type does not
  start with \<^verbatim>\<open>image/\<close>, a file over the size limit) makes no call to the storage gateway:
  the world after the request is the world before it.
\<close>

theorem C5_rejected_upload_leaves_storage:
  assumes "is_upload req" and "missing_file req \<or> non_image req \<or> oversized req"
  shows "snd (app req w) = w
         \<and> gateway_calls (snd (app req w)) = gateway_calls w
         \<and> objects (snd (app req w)) = objects w"
proof (cases "body_accepted req")
  case True
  have "snd (post_upload req w) = w"
    using assms(2) upload_single_non_image [of req "''photo''"]
      upload_single_oversized [of req "''photo''"]
    by (auto simp: post_upload_missing_file post_upload_error)
  then show ?thesis by (simp add: app_upload [OF assms(1) True])
next
  case False
  from app_rejected_body [OF is_upload_not_OPTIONS [OF assms(1)] False, of w]
  show ?thesis by simp
qed

theorem C5_rejected_upload_witness:
  "gateway_calls (snd (app no_body_request world0)) = gateway_calls world0
   \<and> gateway_calls (snd (app text_file_request world0)) = gateway_calls world0
   \<and> gateway_calls (snd (app large_image_request world0)) = gateway_calls world0
   \<and> objects (snd (app large_image_request world0)) = objects world0"
proof -
  have 1: "is_upload no_body_request" "missing_file no_body_request"
    by (simp_all add: no_body_request_def multipart_def parts_def is_upload_def missing_file_def route_matches_def
        toLowerCase_def)
  have 2: "is_upload text_file_request" "non_image text_file_request"
    by (simp_all add: text_file_request_def is_upload_upload_of)
       (simp add: upload_of_def multipart_def parts_def non_image_def)
  have 3: "is_upload large_image_request" "oversized large_image_request"
    by (simp_all add: large_image_request_def is_upload_upload_of)
       (simp add: upload_of_def multipart_def parts_def oversized_def fileSize_def)
  show ?thesis
    using C5_rejected_upload_leaves_storage [of no_body_request world0]
      C5_rejected_upload_leaves_storage [of text_file_request world0]
      C5_rejected_upload_leaves_storage [of large_image_request world0] 1 2 3
    by simp
qed

text \<open>
  By contrast, an image within the limit sent in the field \<^verbatim>\<open>photo\<close> does reach the
  storage gateway: one upload call is made, under the generated filename, and when the
  service proceeds and the key is free the object is stored.
\<close>

lemma accepted_upload_reaches_storage:
  assumes "is_upload req" and "multipart req"
    and "parts req = [FilePart ''photo'' fname mime bytes]"
    and "fname \<noteq> []" and "startsWith mime ''image/''" and "length bytes \<le> fileSize"
    and "gateway_answer w = Proceeds"
    and "objects w (fst (generateUniqueFilename fname w)) = None"
  shows "status (fst (app req w)) = 200
         \<and> objects (snd (app req w)) (fst (generateUniqueFilename fname w)) = Some (bytes, mime)
         \<and> gateway_calls (snd (app req w)) =
             gateway_calls w @ [Upload (BUCKET_NAME w) (fst (generateUniqueFilename fname w)) bytes mime]"
proof -
  let ?f = "\<lparr>fieldname = ''photo'', originalname = fname, mimetype = mime, buffer = bytes\<rparr>"
  obtain key w1 where g: "generateUniqueFilename fname w = (key, w1)"
    by (cases "generateUniqueFilename fname w")
  have w1: "w1 = w\<lparr>clock_reads := Suc (clock_reads w), entropy_taken := entropy_taken w + 8\<rparr>"
    using generateUniqueFilename_snd [of fname w] g by simp
  have up: "upload_single ''photo'' req = Inr (Some ?f)"
    using assms(2-6) by (simp add: upload_single_def multer_single_def fileFilter_def)
  have ans: "gateway_answer w1 = Proceeds"
    using assms(7) by (simp add: w1 gateway_answer_def)
  have free: "objects w1 key = None"
    using assms(8) g by (simp add: w1)
  have "post_upload req w =
      (respond 200
         (JObject [(''success'', JBool True),
                   (''message'', JString ''Photo uploaded successfully''),
                   (''data'', JObject [(''filename'', JString key),
                                       (''url'', JString (getPublicUrl key w1)),
                                       (''size'', JNumber (length bytes)),
                                       (''type'', JString mime)])]),
       (logged (Upload (BUCKET_NAME w1) key bytes mime) w1)
         \<lparr>objects := (objects w1)(key \<mapsto> (bytes, mime))\<rparr>)"
    using g ans free
    by (simp add: post_upload_def up upload_handler_def storage_upload_def Let_def
        getPublicUrl_def logged_def)
  then show ?thesis
    using g
    by (simp add: app_upload [OF assms(1) multipart_accepted [OF assms(2)]] respond_def
        logged_def w1)
qed







section \<open>Properties of the delete route\<close>

text \<open>The guard of the handler, and why no request reaches it.\<close>

lemma delete_handler_guard:
  "delete_handler [] w = (failure 400 ''Filename is required'', w)"
  by (simp add: delete_handler_def)

lemma match_delete_nonempty: "match_delete p \<noteq> Some []"
  by (simp add: match_delete_def Let_def)

lemma delete_without_filename_unrouted:
  assumes "req_method req = DELETE" and "path req = ''/delete/''"
  shows "routes req w = (\<lparr>status = 404, body = ErrorPage ''Cannot DELETE /delete/''\<rparr>, w)"
  using assms by (simp add: routes_def match_delete_def route_matches_def toLowerCase_def)

lemma delete_never_filename_required:
  assumes "req_method req = DELETE"
  shows "fst (app req w) \<noteq> failure 400 ''Filename is required''"
proof (cases "body_accepted req")
  case False
  with assms have "status (fst (app req w)) = 500"
    using app_rejected_body [of req w] by simp
  then show ?thesis by (auto simp: status_failure)
next
  case True
  with assms have a: "app req w = routes req w" by (simp add: app_routes)
  show ?thesis
  proof (cases "match_delete (path req)")
    case None
    with assms show ?thesis by (simp add: a routes_def failure_def respond_def)
  next
    case (Some filename)
    with match_delete_nonempty [of "path req"] have "filename \<noteq> []" by auto
    with assms Some show ?thesis
      by (auto simp: a routes_def delete_handler_def storage_remove_def failure_def respond_def
          Let_def split: upstream.splits)
  qed
qed

text \<open>
  C3.  The claim: \<^verbatim>\<open>DELETE /delete/\<close> is answered with status 400 and
  \<^verbatim>\<open>Filename is required\<close>.  The code: the handler has that guard, but the route
  \<^verbatim>\<open>/delete/:filename\<close> matches a non-empty segment only, so the request reaches no
  handler: it gets the 404 page, or status 500 from the error handling middleware when
  the JSON body parser rejects its body, and never status 400.
\<close>

theorem C3_delete_without_filename_is_404:
  assumes "req_method req = DELETE" and "path req = ''/delete/''"
  shows "(body_accepted req \<longrightarrow>
            app req w = (\<lparr>status = 404, body = ErrorPage ''Cannot DELETE /delete/''\<rparr>, w))
         \<and> (\<not> body_accepted req \<longrightarrow> status (fst (app req w)) = 500)
         \<and> status (fst (app req w)) \<noteq> 400
         \<and> snd (app req w) = w"
proof (cases "body_accepted req")
  case True
  with assms have "app req w = (\<lparr>status = 404, body = ErrorPage ''Cannot DELETE /delete/''\<rparr>, w)"
    by (simp add: app_routes delete_without_filename_unrouted)
  with True show ?thesis by simp
next
  case False
  with assms(1) app_rejected_body [of req w] show ?thesis by simp
qed

theorem C3_delete_without_filename_witness:
  "fst (app delete_empty_request world0)
     = \<lparr>status = 404, body = ErrorPage ''Cannot DELETE /delete/''\<rparr>
   \<and> status (fst (app delete_empty_request world0)) = 404"
proof -
  have "body_accepted delete_empty_request"
    by (simp add: delete_empty_request_def body_accepted_def)
  with C3_delete_without_filename_is_404 [of delete_empty_request world0]
  show ?thesis by (simp add: delete_empty_request_def)
qed

section \<open>Properties of the health route\<close>

lemma length_numberToString:
  "0 < k \<Longrightarrow> n < 10 ^ k \<Longrightarrow> length (numberToString n) \<le> k"
proof (induction k arbitrary: n)
  case 0
  then show ?case by simp
next
  case (Suc k)
  show ?case
  proof (cases "n < 10")
    case True
    then show ?thesis by (subst numberToString.simps) simp
  next
    case False
    with Suc.prems have k: "0 < k" by (cases k) simp_all
    from Suc.prems have "n div 10 < 10 ^ k" by (simp add: less_mult_imp_div_less mult.commute)
    from Suc.IH [OF k this] False show ?thesis
      by (subst numberToString.simps) simp
  qed
qed

lemma length_pad: "0 < k \<Longrightarrow> n < 10 ^ k \<Longrightarrow> length (pad k n) = k"
  using length_numberToString [of k n] by (simp add: pad_def)

lemma is_digit_zero: "is_digit CHR ''0''"
  by (simp add: is_digit_def)

lemma list_all_replicate: "P x \<Longrightarrow> list_all P (replicate n x)"
  by (induction n) simp_all

lemma pad_digits: "list_all is_digit (pad k n)"
  by (simp add: pad_def numberToString_digits list_all_replicate is_digit_zero)

lemma foldl_zeros:
  "foldl (\<lambda>n c. 10 * n + (of_char c - 48)) (0::nat) (replicate j CHR ''0'') = 0"
  by (induction j) simp_all

lemma digits_value_pad: "digits_value (pad k n) = n"
  using digits_value_numberToString [of n] by (simp add: digits_value_def pad_def foldl_zeros)

lemma two_digits_pad: "n < 100 \<Longrightarrow> lo \<le> n \<Longrightarrow> n \<le> hi \<Longrightarrow> two_digits (pad 2 n) lo hi"
  using length_pad [of 2 n] by (simp add: two_digits_def pad_digits digits_value_pad)

lemma length_2E: "length s = 2 \<Longrightarrow> \<exists>a b. s = [a, b]"
  by (auto simp: length_Suc_conv numeral_2_eq_2)

lemma length_3E: "length s = 3 \<Longrightarrow> \<exists>a b c. s = [a, b, c]"
  by (auto simp: length_Suc_conv numeral_3_eq_3)

lemma two_digits_length: "two_digits s lo hi \<Longrightarrow> length s = 2"
  by (simp add: two_digits_def)

lemma iso_date_time_intro:
  assumes M: "two_digits M 1 12" and D: "two_digits D 1 31" and h: "two_digits h 0 23"
    and mi: "two_digits mi 0 59" and sec: "two_digits sec 0 59"
    and ms: "length ms = 3" "list_all is_digit ms"
  shows "iso_date_time (''-'' @ M @ ''-'' @ D @ ''T'' @ h @ '':'' @ mi @ '':'' @ sec @ ''.'' @ ms @ ''Z'')"
proof -
  obtain m1 m2 where M': "M = [m1, m2]" using length_2E [OF two_digits_length [OF M]] by blast
  obtain d1 d2 where D': "D = [d1, d2]" using length_2E [OF two_digits_length [OF D]] by blast
  obtain h1 h2 where h': "h = [h1, h2]" using length_2E [OF two_digits_length [OF h]] by blast
  obtain i1 i2 where mi': "mi = [i1, i2]" using length_2E [OF two_digits_length [OF mi]] by blast
  obtain s1 s2 where sec': "sec = [s1, s2]" using length_2E [OF two_digits_length [OF sec]] by blast
  obtain f1 f2 f3 where ms': "ms = [f1, f2, f3]" using length_3E [OF ms(1)] by blast
  show ?thesis
    using M D h mi sec ms(2)
    unfolding M' D' h' mi' sec' ms' iso_date_time_def substring_def
    by simp
qed

lemma month_walk_bounds:
  "d < sum_list ls \<Longrightarrow> list_all (\<lambda>l. l \<le> 31) ls \<Longrightarrow> month_walk ls m d = (m', d')
     \<Longrightarrow> m' < m + length ls \<and> d' < 31"
proof (induction ls arbitrary: m d)
  case Nil
  then show ?case by simp
next
  case (Cons l ls)
  show ?case
  proof (cases "d < l")
    case True
    with Cons.prems show ?thesis by auto
  next
    case False
    with Cons.prems have "d - l < sum_list ls" "list_all (\<lambda>l. l \<le> 31) ls"
      "month_walk ls (Suc m) (d - l) = (m', d')" by auto
    from Cons.IH [OF this] show ?thesis by simp
  qed
qed

lemma day_of_year_bound: "r4 < 1461 \<Longrightarrow> r4 - min 3 (r4 div 365) * 365 < (366::nat)"
  by (simp add: min_def) arith

lemma civil_from_days_bounds:
  assumes "civil_from_days days = (y, m, d)"
  shows "1 \<le> m \<and> m \<le> 12 \<and> 1 \<le> d \<and> d \<le> 31
         \<and> y \<le> 400 * ((days + 719468) div 146097) + 700"
proof -
  define z where "z = days + 719468"
  define r400 where "r400 = z mod 146097"
  define n100 where "n100 = min 3 (r400 div 36524)"
  define r100 where "r100 = r400 - n100 * 36524"
  define r4 where "r4 = r100 mod 1461"
  define n1 where "n1 = min 3 (r4 div 365)"
  define doy where "doy = r4 - n1 * 365"
  define y0 where "y0 = 400 * (z div 146097) + 100 * n100 + 4 * (r100 div 1461) + n1"
  obtain mp dd where mw: "month_walk month_lengths 0 doy = (mp, dd)" by (cases "month_walk month_lengths 0 doy")
  have "r4 < 1461" by (simp add: r4_def)
  then have "doy < 366" unfolding doy_def n1_def by (rule day_of_year_bound)
  then have "doy < sum_list month_lengths" by (simp add: month_lengths_def)
  moreover have "list_all (\<lambda>l. l \<le> 31) month_lengths" by (simp add: month_lengths_def)
  ultimately have "mp < 0 + length month_lengths \<and> dd < 31"
    using mw by (rule month_walk_bounds)
  then have mp: "mp < 12" and dd: "dd < 31" by (simp_all add: month_lengths_def)
  have "r400 < 146097" by (simp add: r400_def)
  then have "r100 < 146097" unfolding r100_def by simp
  then have "r100 div 1461 \<le> 99" by simp
  moreover have "n100 \<le> 3" "n1 \<le> 3" by (simp_all add: n100_def n1_def)
  ultimately have y0: "y0 \<le> 400 * (z div 146097) + 699" unfolding y0_def by simp
  have "civil_from_days days =
      (if mp < 10 then y0 else Suc y0, if mp < 10 then mp + 3 else mp - 9, Suc dd)"
    unfolding civil_from_days_def Let_def
    using mw
    by (simp only: z_def [symmetric] r400_def [symmetric] n100_def [symmetric]
        r100_def [symmetric] r4_def [symmetric] n1_def [symmetric] doy_def [symmetric]
        y0_def [symmetric] prod.case)
  with assms have "y = (if mp < 10 then y0 else Suc y0)"
    "m = (if mp < 10 then mp + 3 else mp - 9)" "d = Suc dd" by simp_all
  with mp dd y0 show ?thesis unfolding z_def by auto
qed

lemma digit_not_sign: "is_digit c \<Longrightarrow> c \<noteq> CHR ''+'' \<and> c \<noteq> CHR ''-''"
  by (auto simp: is_digit_def)

lemma iso8601_plain_year:
  assumes "length Y = 4" "list_all is_digit Y" "iso_date_time rest"
  shows "iso8601 (Y @ rest)"
proof -
  from assms(1) obtain c cs where Y: "Y = c # cs" by (cases Y) simp_all
  with assms(2) have "c \<noteq> CHR ''+'' \<and> c \<noteq> CHR ''-''" by (simp add: digit_not_sign)
  moreover have "take 4 (Y @ rest) = Y" "drop 4 (Y @ rest) = rest" using assms(1) by simp_all
  ultimately show ?thesis
    using assms(2,3) Y by (simp add: iso8601_def del: take_append drop_append)
qed

lemma iso8601_expanded_year:
  assumes "length Y = 6" "list_all is_digit Y" "iso_date_time rest"
  shows "iso8601 (''+'' @ Y @ rest)"
  using assms by (simp add: iso8601_def)

lemma toISOString_well_formed:
  assumes "t \<le> maxTimeValue"
  shows "\<exists>s. toISOString t = Inr s \<and> iso8601 s"
proof -
  obtain y m d where c: "civil_from_days (t div 86400000) = (y, m, d)"
    by (cases "civil_from_days (t div 86400000)")
  note b = civil_from_days_bounds [OF c]
  define ms where "ms = t mod 86400000"
  have ms: "ms < 86400000" by (simp add: ms_def)
  from assms have "t div 86400000 \<le> 100000000"
    by (simp add: maxTimeValue_def)
  then have "(t div 86400000 + 719468) div 146097 \<le> 689" by simp
  with b have y: "y < 10 ^ 6" by simp
  define rest where "rest = ''-'' @ pad 2 m @ ''-'' @ pad 2 d @ ''T''
      @ pad 2 (ms div 3600000) @ '':'' @ pad 2 (ms div 60000 mod 60) @ '':''
      @ pad 2 (ms div 1000 mod 60) @ ''.'' @ pad 3 (ms mod 1000) @ ''Z''"
  have "ms div 3600000 < 24" using ms by simp
  then have h: "two_digits (pad 2 (ms div 3600000)) 0 23" by (intro two_digits_pad) simp_all
  have mi: "two_digits (pad 2 (ms div 60000 mod 60)) 0 59" by (intro two_digits_pad) simp_all
  have se: "two_digits (pad 2 (ms div 1000 mod 60)) 0 59" by (intro two_digits_pad) simp_all
  have M: "two_digits (pad 2 m) 1 12" using b by (intro two_digits_pad) simp_all
  have D: "two_digits (pad 2 d) 1 31" using b by (intro two_digits_pad) simp_all
  have f: "length (pad 3 (ms mod 1000)) = 3" by (rule length_pad) simp_all
  have rest: "iso_date_time rest"
    unfolding rest_def using M D h mi se f pad_digits by (rule iso_date_time_intro)
  have eq: "toISOString t = Inr ((if y \<le> 9999 then pad 4 y else ''+'' @ pad 6 y) @ rest)"
    using assms c by (simp add: toISOString_def Let_def rest_def ms_def)
  show ?thesis
  proof (cases "y \<le> 9999")
    case True
    then have "length (pad 4 y) = 4" by (intro length_pad) simp_all
    then have "iso8601 (pad 4 y @ rest)" using pad_digits rest by (rule iso8601_plain_year)
    with eq True show ?thesis by simp
  next
    case False
    have "length (pad 6 y) = 6" using y by (intro length_pad) simp_all
    then have "iso8601 (''+'' @ pad 6 y @ rest)" using pad_digits rest
      by (rule iso8601_expanded_year)
    with eq False show ?thesis by simp
  qed
qed

lemma app_health:
  "req_method req = GET \<Longrightarrow> route_matches ''/health'' (path req) \<Longrightarrow> body_accepted req
     \<Longrightarrow> app req w = health w"
  by (simp add: app_routes routes_def)

lemma malformed_json_rejected: "\<not> body_accepted malformed_json_health_request"
  by (simp add: malformed_json_health_request_def body_accepted_def firstchar_def is_ws_def
      JSON_parse_ok_def is_digit_def)

lemma empty_object_accepted: "body_accepted json_health_request"
  by (simp add: json_health_request_def body_accepted_def firstchar_def is_ws_def
      JSON_parse_ok_def is_digit_def json_value_start_def json_limit_def utf8_def utf8_char_def)

text \<open>
  C8 as stated fails: the JSON body parser runs before the route, so a \<^verbatim>\<open>GET /health\<close>
  request with a malformed JSON body is answered with status 500 by the error handling
  middleware.
\<close>

theorem C8_counterexample:
  "req_method malformed_json_health_request = GET
   \<and> path malformed_json_health_request = ''/health''
   \<and> status (fst (app malformed_json_health_request world0)) = 500"
proof -
  have "req_method malformed_json_health_request \<noteq> OPTIONS"
    by (simp add: malformed_json_health_request_def)
  from app_rejected_body [OF this malformed_json_rejected, of world0]
  show ?thesis by (simp add: malformed_json_health_request_def)
qed

text \<open>
  C8, amended.  Every \<^verbatim>\<open>GET /health\<close> request that the JSON body parser lets through
  (its body is not JSON, or is a JSON text of at most 100kb that is empty or a well-formed
  object or array) is answered with status 200 and a body with \<^verbatim>\<open>status: "OK"\<close>,
  \<^verbatim>\<open>service: "Photo Upload API"\<close> and a \<^verbatim>\<open>timestamp\<close> that is a well-formed ISO-8601
  string, for every reading of the clock that is a time value (at most \<open>8.64 * 10^15\<close>
  milliseconds).
\<close>

theorem C8_health_ok:
  assumes "req_method req = GET" and "route_matches ''/health'' (path req)"
    and "body_accepted req" and "clock w (clock_reads w) \<le> maxTimeValue"
  shows "\<exists>ts. fst (app req w) =
                 respond 200 (JObject [(''status'', JString ''OK''),
                                       (''timestamp'', JString ts),
                                       (''service'', JString ''Photo Upload API'')])
              \<and> status (fst (app req w)) = 200 \<and> iso8601 ts"
proof -
  from toISOString_well_formed [OF assms(4)] obtain ts where
    "toISOString (clock w (clock_reads w)) = Inr ts" "iso8601 ts" by blast
  then show ?thesis
    by (auto simp: app_health [OF assms(1,2,3)] health_def Date_now_def respond_def)
qed

lemma toISOString_example: "toISOString 1735123456789 = Inr ''2024-12-25T10:44:16.789Z''"
  by (simp add: toISOString_def maxTimeValue_def civil_from_days_def month_lengths_def Let_def
      pad_def numberToString.simps hex_digit_def)

theorem C8_health_witness:
  "fst (app health_request world0) =
     respond 200 (JObject [(''status'', JString ''OK''),
                           (''timestamp'', JString ''2024-12-25T10:44:16.789Z''),
                           (''service'', JString ''Photo Upload API'')])
   \<and> iso8601 ''2024-12-25T10:44:16.789Z''
   \<and> body_accepted json_health_request
   \<and> status (fst (app json_health_request world0)) = 200"
proof -
  have m: "req_method health_request = GET" by (simp add: health_request_def)
  have r: "route_matches ''/health'' (path health_request)"
    by (simp add: health_request_def route_matches_def toLowerCase_def)
  have a: "body_accepted health_request"
    by (simp add: health_request_def body_accepted_def)
  have c: "clock world0 (clock_reads world0) \<le> maxTimeValue"
    by (simp add: world0_def maxTimeValue_def)
  have t: "toISOString (clock world0 (clock_reads world0)) = Inr ''2024-12-25T10:44:16.789Z''"
    using toISOString_example by (simp add: world0_def)
  from C8_health_ok [OF m r a c] obtain ts where
    ts: "fst (app health_request world0) =
                 respond 200 (JObject [(''status'', JString ''OK''),
                                       (''timestamp'', JString ts),
                                       (''service'', JString ''Photo Upload API'')])"
    and iso: "iso8601 ts" by blast
  have "fst (app health_request world0) =
     respond 200 (JObject [(''status'', JString ''OK''),
                           (''timestamp'', JString ''2024-12-25T10:44:16.789Z''),
                           (''service'', JString ''Photo Upload API'')])"
    using t by (simp add: app_health [OF m r a] health_def Date_now_def)
  with ts have "ts = ''2024-12-25T10:44:16.789Z''" by (simp add: respond_def)
  moreover have "status (fst (app json_health_request world0)) = 200"
  proof -
    have m': "req_method json_health_request = GET" by (simp add: json_health_request_def)
    have r': "route_matches ''/health'' (path json_health_request)"
      by (simp add: json_health_request_def route_matches_def toLowerCase_def)
    from C8_health_ok [OF m' r' empty_object_accepted c] show ?thesis by blast
  qed
  ultimately show ?thesis using ts iso empty_object_accepted by simp
qed

end
